theory Spec2Isabelle
  imports Main "HOL-Library.Word" "HOL-Library.List_Lexorder" "HOL-Library.Multiset"
begin

section \<open>JavaScript strings\<close>

text \<open>
  A JavaScript string is a sequence of 16-bit code units. The relational operators on
  strings compare code unit by code unit, a proper prefix being smaller: this is the
  lexicographic order of \<^theory_text>\<open>HOL-Library.List_Lexorder\<close> on lists of 16-bit words.
  \<open>utf16\<close> embeds an ASCII literal (one code unit per character); the few characters of
  the corpus beyond ASCII are written as their code unit.
\<close>

type_synonym jsstring = "16 word list"

definition utf16 :: "string \<Rightarrow> jsstring" where
  "utf16 s = map of_char s"

section \<open>Numbers (Utilities/Random)\<close>

text \<open>
  A JavaScript Number is an IEEE 754 double. \<open>Random\<close> handles only non-negative finite
  numbers and integers: \<open>Double m e\<close> stands for the number \<open>m * 2 ^ e\<close>, and it is a
  double when the significand has at most 53 bits and the exponent lies in the range of the
  format.
\<close>

datatype double = Double (mant: nat) (expo: int)

definition is_double :: "double \<Rightarrow> bool" where
  "is_double d \<longleftrightarrow> mant d < 2 ^ 53 \<and> - 1074 \<le> expo d \<and> expo d \<le> 971"

text \<open>
  \<open>Math.random()\<close> returns a double at least 0 and less than 1. The draw is the first
  argument of \<open>Random\<close>; \<open>less_than_one\<close> compares \<open>m * 2 ^ e\<close> with 1 in integers.
\<close>

definition less_than_one :: "double \<Rightarrow> bool" where
  "less_than_one d \<longleftrightarrow> (if 0 \<le> expo d then mant d = 0 else mant d < 2 ^ nat (- expo d))"

definition is_random :: "double \<Rightarrow> bool" where
  "is_random d \<longleftrightarrow> is_double d \<and> less_than_one d"

text \<open>
  The product of a double and an integer length is rounded to the nearest double, ties to
  the even significand: \<open>excess M\<close> counts the bits of the exact significand \<open>M\<close> beyond
  53, which are shifted out; a carry out of the 53 bits renormalises the significand. The
  length of an array, the bounds \<open>min\<close> and \<open>max\<close> and the sum \<open>max - min + 1\<close> are
  integers below \<open>2 ^ 53\<close> in magnitude, which doubles represent exactly. The product of
  a draw below 1 and such a length stays below \<open>2 ^ 53\<close>, so it never overflows, and the
  exponent only grows, so it never leaves the format from below.
\<close>

fun excess :: "nat \<Rightarrow> nat" where
  "excess M = (if M < 2 ^ 53 then 0 else Suc (excess (M div 2)))"

declare excess.simps [simp del]

definition round_nearest_even :: "nat \<Rightarrow> int \<Rightarrow> double" where
  "round_nearest_even M e =
     (let s = excess M;
          q = M div 2 ^ s;
          rest = M mod 2 ^ s;
          q' = (if 2 ^ s < 2 * rest \<or> (2 * rest = 2 ^ s \<and> odd q) then q + 1 else q)
      in if q' = 2 ^ 53 then Double (2 ^ 52) (e + int s + 1) else Double q' (e + int s))"

definition js_times :: "double \<Rightarrow> nat \<Rightarrow> double" where
  "js_times d n = round_nearest_even (mant d * n) (expo d)"

text \<open>\<open>Math.floor\<close> of a non-negative double.\<close>

definition js_floor :: "double \<Rightarrow> int" where
  "js_floor d = (if 0 \<le> expo d then int (mant d) * 2 ^ nat (expo d)
                 else int (mant d) div 2 ^ nat (- expo d))"

definition Random :: "double \<Rightarrow> nat \<Rightarrow> int" where
  "Random rnd len =
     (let min' = 0;
          max' = int len - 1;
          rand = js_floor (js_times rnd (nat (max' - min' + 1))) + min'
      in rand)"

section \<open>Quiz store (Assets/quiz)\<close>

record quizEntry =
  Q :: jsstring
  A :: jsstring

record answerOption =
  value' :: jsstring
  label :: jsstring

definition quizData :: "quizEntry list" where
  "quizData = [
    \<lparr>Q = utf16 ''What is the capital of New Zealand'',
     A = utf16 ''Wellington''\<rparr>,
    \<lparr>Q = utf16 ''What is New Zealand'' @ [0x2019] @ utf16 ''s official name in Maori'',
     A = utf16 ''Aotearoa''\<rparr>,
    \<lparr>Q = utf16 ''What currency is used in New Zealand'',
     A = utf16 ''New Zealand Dollar''\<rparr>,
    \<lparr>Q = utf16 ''What colours are on the flag of New Zealand'',
     A = utf16 ''Blue, red and white''\<rparr>,
    \<lparr>Q = utf16 ''What are the two main political parties in New Zealand'',
     A = utf16 ''National and Labour''\<rparr>,
    \<lparr>Q = utf16 ''What is the nickname given to New Zealanders'',
     A = utf16 ''Kiwi(s)''\<rparr>,
    \<lparr>Q = utf16 ''Who was the first European to arrive in New Zealand'',
     A = utf16 ''(+ Bonus point for his nationality) Abel Tasman, Dutch''\<rparr>,
    \<lparr>Q = utf16 ''Who is New Zealand'' @ [0x2019] @ utf16 ''s monarch'',
     A = utf16 ''King Charles''\<rparr>,
    \<lparr>Q = utf16 ''How many official languages are there in NZ'',
     A = utf16 ''Two. Te reo M'' @ [0x0101] @ utf16 ''ori (the language M'' @ [0x0101] @ utf16 ''ori) and New Zealand Sign Language.''\<rparr>,
    \<lparr>Q = utf16 ''What are the two national anthems of New Zealand'',
     A = utf16 ''(1 point each) '' @ [0x201C] @ utf16 ''God defend New Zealand'' @ [0x201D] @ utf16 '' and '' @ [0x201C] @ utf16 ''God Save the Queen'' @ [0x201D]\<rparr>,
    \<lparr>Q = utf16 ''How tall is Aoraki Mount Cook'',
     A = utf16 ''3,754 metres''\<rparr>,
    \<lparr>Q = utf16 ''When did Captain Cook come to the islands'',
     A = utf16 ''1769''\<rparr>,
    \<lparr>Q = utf16 ''When did New Zealand gain independence from Britain'',
     A = utf16 ''1947''\<rparr>,
    \<lparr>Q = utf16 ''What animal can you find on a 1 dollar coin'',
     A = utf16 ''Kiwi''\<rparr>,
    \<lparr>Q = utf16 ''In 1893, New Zealand became the first country to do what'',
     A = utf16 ''Give women the right to vote''\<rparr>,
    \<lparr>Q = utf16 ''What is a Tuatara'',
     A = utf16 ''Reptile''\<rparr>,
    \<lparr>Q = utf16 ''When was NZ Rugby Football Union founded'',
     A = utf16 ''1892''\<rparr>,
    \<lparr>Q = utf16 ''When was New Zealand first Poppy Day'',
     A = utf16 ''1922''\<rparr>,
    \<lparr>Q = utf16 ''What is the name of the strait that separates the North and South Islands'',
     A = utf16 ''Cook Strait''\<rparr>,
    \<lparr>Q = utf16 ''What is the largest lake in New Zealand'',
     A = utf16 ''Lake Taupo''\<rparr>,
    \<lparr>Q = utf16 ''What is the largest city in New Zealand'',
     A = utf16 ''Auckland''\<rparr>,
    \<lparr>Q = utf16 ''What is the highest mountain peak in New Zealand'',
     A = utf16 ''Aoraki Mount Cook''\<rparr>,
    \<lparr>Q = utf16 ''How many regions are there in New Zealand'',
     A = utf16 ''16''\<rparr>,
    \<lparr>Q = utf16 ''What is the highest range of mountains in Australasia'',
     A = utf16 ''Southern Alps''\<rparr>,
    \<lparr>Q = utf16 ''What is the largest glacier in New Zealand'',
     A = utf16 ''The Tasman Glacier''\<rparr>,
    \<lparr>Q = utf16 ''On which island can you find the Canterbury Plains'',
     A = utf16 ''South Island''\<rparr>,
    \<lparr>Q = utf16 ''What is the longest river in New Zealand'',
     A = utf16 ''Waikato River''\<rparr>,
    \<lparr>Q = utf16 ''In which city can you find the Sky Tower'',
     A = utf16 ''Auckland''\<rparr>
  ]"

text \<open>
  \<open>Array.prototype.sort\<close> belongs to the JavaScript runtime, not to the repository. It is
  modelled as an insertion sort driven only by the results of the comparison function: an
  element is placed before the first element against which the comparison function
  answers a negative number. The comparison function of \<open>sortedListAnswers\<close> answers
  \<open>- 1\<close> for equal values too.
\<close>

fun insert_by :: "('a \<Rightarrow> 'a \<Rightarrow> int) \<Rightarrow> 'a \<Rightarrow> 'a list \<Rightarrow> 'a list" where
  "insert_by cmp x [] = [x]"
| "insert_by cmp x (y # ys) = (if cmp x y < 0 then x # y # ys else y # insert_by cmp x ys)"

definition array_sort :: "('a \<Rightarrow> 'a \<Rightarrow> int) \<Rightarrow> 'a list \<Rightarrow> 'a list" where
  "array_sort cmp xs = foldl (\<lambda>acc x. insert_by cmp x acc) [] xs"

text \<open>
  \<open>sortedListAnswers\<close> reads the module constant \<open>quizData\<close>; the corpus is a parameter of
  \<open>sortedListAnswersOf\<close> so that the properties hold for every corpus (the tests replace it).
\<close>

definition sortedListAnswersOf :: "quizEntry list \<Rightarrow> answerOption list" where
  "sortedListAnswersOf qd =
     (let list = map (\<lambda>item. \<lparr>value' = A item, label = A item\<rparr>) qd;
          listSorted = array_sort (\<lambda>a b. if value' a > value' b then 1 else - 1) list
      in listSorted)"

definition sortedListAnswers :: "answerOption list" where
  "sortedListAnswers = sortedListAnswersOf quizData"

section \<open>The component (App.jsx)\<close>

text \<open>
  The three \<open>useState\<close> cells of \<open>App\<close>. The setters called by one event handler take
  effect together, in the render that follows the handler, so a handler is a function from
  the state it saw to the next state. \<open>gameData\<close> has the shape of a quiz entry.
\<close>

record appState =
  gameData :: quizEntry
  answer :: jsstring
  winlose :: jsstring

definition initialState :: appState where
  "initialState =
     \<lparr>gameData = \<lparr>Q = utf16 ''Start'', A = utf16 ''Start''\<rparr>, answer = [], winlose = []\<rparr>"

text \<open>
  \<open>allData[rand]\<close> is \<open>undefined\<close> (\<open>None\<close>) outside the array, and reading a property
  of \<open>undefined\<close> throws a \<open>TypeError\<close>.
\<close>

datatype js_error = TypeError

definition array_get :: "'a list \<Rightarrow> int \<Rightarrow> 'a option" where
  "array_get xs i = (if 0 \<le> i \<and> i < int (length xs) then Some (xs ! nat i) else None)"

definition get_property :: "('a \<Rightarrow> 'b) \<Rightarrow> 'a option \<Rightarrow> js_error + 'b" where
  "get_property field obj = (case obj of None \<Rightarrow> Inl TypeError | Some x \<Rightarrow> Inr (field x))"

text \<open>
  \<open>onClickHandlerNewGame\<close>: the corpus \<open>allData\<close> and the draw of \<open>Math.random()\<close> are
  parameters. The logging and the assignment to \<open>gameDataForConsoleLogOnly\<close> leave the
  state alone.
\<close>

definition onClickHandlerNewGame :: "quizEntry list \<Rightarrow> double \<Rightarrow> appState \<Rightarrow> js_error + appState" where
  "onClickHandlerNewGame allData rnd s =
     (let s1 = s\<lparr>answer := []\<rparr>;
          s2 = s1\<lparr>winlose := []\<rparr>;
          rand = Random rnd (length allData)
      in case get_property Q (array_get allData rand) of
           Inl err \<Rightarrow> Inl err
         | Inr q \<Rightarrow>
             (case get_property A (array_get allData rand) of
                Inl err \<Rightarrow> Inl err
              | Inr a \<Rightarrow> Inr (s2\<lparr>gameData := \<lparr>Q = q, A = a\<rparr>\<rparr>)))"

text \<open>
  \<open>winLoseCalc\<close> reads \<open>gameData\<close> from the state of the render that created it. It
  returns nothing, that is \<open>undefined\<close> (\<open>None\<close>), when its guard fails; concatenating
  \<open>undefined\<close> to a string appends the text \<open>undefined\<close>.
\<close>

definition winLoseCalc :: "appState \<Rightarrow> jsstring \<Rightarrow> jsstring option" where
  "winLoseCalc s answerLet =
     (if answerLet \<noteq> utf16 ''undefined'' then
        (if answerLet = A (gameData s) then Some (utf16 ''win'') else Some (utf16 ''lose''))
      else None)"

definition string_plus :: "jsstring \<Rightarrow> jsstring option \<Rightarrow> jsstring" where
  "string_plus str v = str @ (case v of None \<Rightarrow> utf16 ''undefined'' | Some t \<Rightarrow> t)"

definition handleAnswerChange :: "answerOption \<Rightarrow> appState \<Rightarrow> appState" where
  "handleAnswerChange e s =
     (let s1 = s\<lparr>answer := value' e\<rparr>;
          answerLet = value' e
      in s1\<lparr>winlose := string_plus (utf16 ''- you '') (winLoseCalc s answerLet)\<rparr>)"

text \<open>The text of the \<open>h4\<close> element: a string is truthy when it is not empty.\<close>

definition message :: "appState \<Rightarrow> jsstring" where
  "message s = (if answer s \<noteq> [] then utf16 ''You selected '' @ answer s @ winlose s else [])"

text \<open>
  The states the component reaches: the button runs \<open>onClickHandlerNewGame\<close> with some
  draw, the dropdown runs \<open>handleAnswerChange\<close> with one of the options it can deliver.
  In \<open>App\<close> the corpus is \<open>quizData\<close> and the dropdown holds \<open>sortedListAnswers\<close>.
\<close>

inductive reachable :: "quizEntry list \<Rightarrow> answerOption set \<Rightarrow> appState \<Rightarrow> bool"
  for allData :: "quizEntry list" and opts :: "answerOption set" where
  start: "reachable allData opts initialState"
| newGame: "reachable allData opts s \<Longrightarrow> is_random rnd \<Longrightarrow>
            onClickHandlerNewGame allData rnd s = Inr s' \<Longrightarrow> reachable allData opts s'"
| select: "reachable allData opts s \<Longrightarrow> e \<in> opts \<Longrightarrow>
           reachable allData opts (handleAnswerChange e s)"

section \<open>Rounding and the range of Random\<close>

lemma excess_upper: "M < 2 ^ 53 * 2 ^ excess M"
proof (induction M rule: excess.induct)
  case (1 M)
  show ?case
  proof (cases "M < 2 ^ 53")
    case True
    then show ?thesis by (simp add: excess.simps)
  next
    case False
    then have IH: "M div 2 < 2 ^ 53 * 2 ^ excess (M div 2)" using 1 by simp
    have "excess M = Suc (excess (M div 2))" using False by (subst excess.simps) simp
    moreover from IH have "M < 2 * (2 ^ 53 * 2 ^ excess (M div 2))" by linarith
    ultimately show ?thesis by simp
  qed
qed

lemma excess_lower: "0 < excess M \<Longrightarrow> 2 ^ 52 * 2 ^ excess M \<le> M"
proof (induction M rule: excess.induct)
  case (1 M)
  show ?case
  proof (cases "M < 2 ^ 53")
    case True
    with 1(2) show ?thesis by (simp add: excess.simps)
  next
    case False
    have eq: "excess M = Suc (excess (M div 2))" using False by (subst excess.simps) simp
    show ?thesis
    proof (cases "0 < excess (M div 2)")
      case True
      with 1(1) False have "2 ^ 52 * 2 ^ excess (M div 2) \<le> M div 2" by simp
      then have "2 * (2 ^ 52 * 2 ^ excess (M div 2)) \<le> M" by linarith
      with eq show ?thesis by simp
    next
      case False': False
      with eq have "excess M = 1" by simp
      with False show ?thesis by simp
    qed
  qed
qed

lemma excess_zero_iff: "excess M = 0 \<longleftrightarrow> M < 2 ^ 53"
  by (subst excess.simps) simp

text \<open>
  The rounding is exact when the significand fits, and otherwise moves the exact product by
  at most half a unit of the last place kept.
\<close>

lemma round_nearest_even_exact: "M < 2 ^ 53 \<Longrightarrow> round_nearest_even M e = Double M e"
  using excess_zero_iff [of M] by (simp add: round_nearest_even_def)

lemma round_nearest_even_nearest:
  fixes M :: nat and e :: int
  defines "d \<equiv> round_nearest_even M e"
  shows "mant d < 2 ^ 53 \<and> e \<le> expo d \<and>
         2 * \<bar>int (mant d) * 2 ^ nat (expo d - e) - int M\<bar> \<le> 2 ^ excess M"
proof -
  define s where "s = excess M"
  define q where "q = M div 2 ^ s"
  define rest where "rest = M mod 2 ^ s"
  define up where "up \<longleftrightarrow> 2 ^ s < 2 * rest \<or> (2 * rest = 2 ^ s \<and> odd q)"
  have "M = q * 2 ^ s + rest"
    unfolding q_def rest_def by (rule div_mult_mod_eq [symmetric])
  then have "int M = int (q * 2 ^ s + rest)" by (rule arg_cong)
  then have M: "int M = int q * 2 ^ s + int rest" by simp
  have rest: "rest < 2 ^ s" unfolding rest_def by simp
  have "M < 2 ^ 53 * 2 ^ s" unfolding s_def by (rule excess_upper)
  then have q: "q < 2 ^ 53" unfolding q_def by (rule less_mult_imp_div_less)
  have d: "d = (if (if up then q + 1 else q) = 2 ^ 53 then Double (2 ^ 52) (e + int s + 1)
               else Double (if up then q + 1 else q) (e + int s))"
    unfolding d_def round_nearest_even_def Let_def s_def q_def rest_def up_def by simp
  show ?thesis
  proof (cases up)
    case False
    then have "2 * rest \<le> 2 ^ s" unfolding up_def by auto
    then have r: "2 * int rest \<le> 2 ^ s" by (metis of_nat_le_iff of_nat_mult of_nat_numeral of_nat_power)
    from False q d have "d = Double q (e + int s)" by simp
    with q r M show ?thesis by (simp add: s_def)
  next
    case True
    then have "2 ^ s \<le> 2 * rest" unfolding up_def by auto
    then have r: "2 ^ s \<le> 2 * int rest" by (metis of_nat_le_iff of_nat_mult of_nat_numeral of_nat_power)
    have r': "int rest < 2 ^ s" using rest by (metis of_nat_less_iff of_nat_numeral of_nat_power)
    have err: "2 * \<bar>(int q + 1) * 2 ^ s - int M\<bar> \<le> 2 ^ s"
      using r r' M by (simp add: algebra_simps)
    show ?thesis
    proof (cases "q + 1 = 2 ^ 53")
      case True': True
      with True d have dd: "d = Double (2 ^ 52) (e + int s + 1)" by simp
      have "nat (e + int s + 1 - e) = Suc s" by simp
      then have "int (mant d) * 2 ^ nat (expo d - e) = 2 ^ 53 * 2 ^ s" using dd by simp
      also have "\<dots> = (int q + 1) * 2 ^ s" using True' by (metis of_nat_Suc of_nat_numeral of_nat_power Suc_eq_plus1 add.commute)
      finally show ?thesis using err dd by (simp add: s_def)
    next
      case False
      with True d have dd: "d = Double (q + 1) (e + int s)" by simp
      from False q have "q + 1 < 2 ^ 53" by simp
      with dd err show ?thesis by (simp add: s_def add.commute)
    qed
  qed
qed

lemma round_up_arith:
  fixes X L Y Z P rest :: nat
  assumes "Y \<le> Z + P" and "X + L \<le> Y" and "P \<le> 2 * rest" and "X = Z + rest"
  shows "2 * L \<le> P"
  using assms by linarith

text \<open>The rounded quotient of the product, before renormalisation.\<close>

lemma rounded_quotient_bound:
  fixes m L k s :: nat
  assumes m: "m < 2 ^ k" and m53: "m < 2 ^ 53" and L53: "L < 2 ^ 53"
    and s: "s = excess (m * L)" and spos: "0 < s"
  defines "q \<equiv> (m * L) div 2 ^ s" and "rest \<equiv> (m * L) mod 2 ^ s"
  shows "s \<le> k" and "q < L * 2 ^ (k - s)" and "2 ^ s \<le> 2 * rest \<Longrightarrow> q + 1 < L * 2 ^ (k - s)"
proof -
  have lo: "2 ^ 52 * 2 ^ s \<le> m * L" using excess_lower [of "m * L"] s spos by simp
  have Lpos: "0 < L" using lo by (cases L) auto
  have mL: "m * L < 2 ^ k * L" using m Lpos by simp
  have "m * L < 2 ^ k * 2 ^ 53"
    using mL L53 by (meson less_trans mult_less_mono2 zero_less_numeral zero_less_power)
  with lo have "(2::nat) ^ 52 * 2 ^ s < 2 ^ k * 2 ^ 53" by linarith
  then have "(2::nat) ^ (52 + s) < 2 ^ (k + 53)" by (simp add: power_add)
  then have "52 + s < k + 53" by (simp only: power_strict_increasing_iff) 
  then show sk: "s \<le> k" by simp
  then have k: "(2::nat) ^ k = 2 ^ (k - s) * 2 ^ s" by (simp add: power_add [symmetric])
  have "m * L < (L * 2 ^ (k - s)) * 2 ^ s" using mL k by (simp add: mult.assoc mult.commute)
  then show qN: "q < L * 2 ^ (k - s)" unfolding q_def by (rule less_mult_imp_div_less)
  assume up: "2 ^ s \<le> 2 * rest"
  show "q + 1 < L * 2 ^ (k - s)"
  proof (rule ccontr)
    assume "\<not> q + 1 < L * 2 ^ (k - s)"
    then have "L * 2 ^ (k - s) \<le> q + 1" by simp
    then have "(L * 2 ^ (k - s)) * 2 ^ s \<le> (q + 1) * 2 ^ s" by (rule mult_le_mono1)
    then have a: "L * 2 ^ k \<le> q * 2 ^ s + 2 ^ s" using k by (simp add: mult.assoc add_mult_distrib)
    have b: "m * L = q * 2 ^ s + rest" unfolding q_def rest_def by (rule div_mult_mod_eq [symmetric])
    have "Suc m \<le> 2 ^ k" using m by simp
    then have "Suc m * L \<le> 2 ^ k * L" by (rule mult_le_mono1)
    then have c: "m * L + L \<le> L * 2 ^ k" by (simp add: mult.commute)
    have d: "2 * L \<le> 2 ^ s" using a c up b by (rule round_up_arith)
    have "m * L < 2 ^ 53 * L" using m53 Lpos by simp
    with lo have "(2::nat) ^ 52 * 2 ^ s < 2 ^ 53 * L" by linarith
    then have "(2::nat) ^ s < 2 * L" by simp
    with d show False by simp
  qed
qed


lemma js_floor_nonpos_expo: "js_floor (Double q (- int d)) = int (q div 2 ^ d)"
proof (cases "d = 0")
  case True
  then show ?thesis by (simp add: js_floor_def)
next
  case False
  then have "\<not> 0 \<le> - int d" by simp
  then show ?thesis by (simp add: js_floor_def zdiv_int)
qed

lemma js_floor_carry: "js_floor (Double (2 ^ 52) (E + 1)) = js_floor (Double (2 ^ 53) E)"
proof -
  consider "0 \<le> E" | "E = - 1" | "E < - 1" by linarith
  then show ?thesis
  proof cases
    case 1
    then have "nat (E + 1) = Suc (nat E)" by simp
    with 1 show ?thesis by (simp add: js_floor_def)
  next
    case 2
    then show ?thesis by (simp add: js_floor_def)
  next
    case 3
    then have n: "nat (- E) = Suc (nat (- E - 1))" by simp
    have "(2::int) ^ 53 div 2 ^ Suc (nat (- E - 1)) = 2 ^ 52 div 2 ^ nat (- E - 1)"
      by (simp add: zdiv_zmult2_eq)
    with 3 n show ?thesis by (simp add: js_floor_def)
  qed
qed

lemma js_floor_times_zero: "js_floor (js_times rnd 0) = 0"
  by (simp add: js_times_def round_nearest_even_def excess_zero_iff js_floor_def)

lemma js_floor_times_range:
  assumes rnd: "is_random rnd" and Lpos: "0 < L" and L53: "L < 2 ^ 53"
  shows "0 \<le> js_floor (js_times rnd L) \<and> js_floor (js_times rnd L) < int L"
proof (cases rnd)
  case (Double m e)
  have m53: "m < 2 ^ 53" using rnd Double by (simp add: is_random_def is_double_def)
  show ?thesis
  proof (cases "0 \<le> e")
    case True
    then have "m = 0" using rnd Double by (simp add: is_random_def less_than_one_def)
    with Double Lpos show ?thesis
      by (simp add: js_times_def round_nearest_even_def excess_zero_iff js_floor_def)
  next
    case False
    define k where "k = nat (- e)"
    have e: "e = - int k" using False by (simp add: k_def)
    have mk: "m < 2 ^ k" using rnd Double False by (simp add: is_random_def less_than_one_def k_def)
    define s where "s = excess (m * L)"
    define q where "q = (m * L) div 2 ^ s"
    define rest where "rest = (m * L) mod 2 ^ s"
    define q' where "q' = (if 2 ^ s < 2 * rest \<or> (2 * rest = 2 ^ s \<and> odd q) then q + 1 else q)"
    have times: "js_times rnd L = (if q' = 2 ^ 53 then Double (2 ^ 52) (e + int s + 1) else Double q' (e + int s))"
      unfolding js_times_def round_nearest_even_def Let_def s_def q_def rest_def q'_def Double
      by simp
    have floor: "js_floor (js_times rnd L) = js_floor (Double q' (e + int s))"
      using times js_floor_carry [of "e + int s"] by simp
    have "s \<le> k \<and> q' < L * 2 ^ (k - s)"
    proof (cases "s = 0")
      case True
      then have "m * L < 2 ^ 53" using s_def excess_zero_iff by simp
      have "q' = m * L" using True by (simp add: q'_def q_def rest_def)
      moreover have "m * L < L * 2 ^ k" using mk Lpos by (simp add: mult.commute)
      ultimately show ?thesis using True by simp
    next
      case False
      then have spos: "0 < s" by simp
      note b = rounded_quotient_bound [OF mk m53 L53 s_def spos, folded q_def rest_def]
      have "q' < L * 2 ^ (k - s)"
        using b(2) b(3) by (auto simp: q'_def)
      with b(1) show ?thesis by simp
    qed
    then have sk: "s \<le> k" and q': "q' < L * 2 ^ (k - s)" by simp_all
    have "e + int s = - int (k - s)" using e sk by simp
    then have "js_floor (js_times rnd L) = int (q' div 2 ^ (k - s))"
      using floor js_floor_nonpos_expo [of q' "k - s"] by simp
    moreover have "q' div 2 ^ (k - s) < L" using q' by (rule less_mult_imp_div_less)
    ultimately show ?thesis by simp
  qed
qed

lemma Random_zero: "Random rnd 0 = 0"
  using js_floor_times_zero [of rnd] by (simp add: Random_def)

lemma Random_range:
  assumes "is_random rnd" and "0 < L" and "L < 2 ^ 53"
  shows "0 \<le> Random rnd L" and "Random rnd L < int L"
  using js_floor_times_range [OF assms] by (simp_all add: Random_def)

lemma excess_largest_28: "excess 252201579132747748 = 5"
  by (simp add: excess.simps)

lemma js_times_largest_28: "js_times (Double 9007199254740991 (- 53)) 28 = Double 7881299347898367 (- 48)"
  by (simp add: js_times_def round_nearest_even_def Let_def excess_largest_28)

lemma Random_largest_28: "Random (Double 9007199254740991 (- 53)) 28 = 27"
  by (simp add: Random_def js_times_largest_28 js_floor_def)

lemma is_random_zero: "is_random (Double 0 0)"
  by (simp add: is_random_def is_double_def less_than_one_def)

lemma is_random_largest: "is_random (Double 9007199254740991 (- 53))"
  by (simp add: is_random_def is_double_def less_than_one_def)

lemma is_random_half: "is_random (Double 4503599627370496 (- 53))"
  by (simp add: is_random_def is_double_def less_than_one_def)

text \<open>
  C3. For every corpus length \<open>L \<ge> 1\<close> and every draw \<open>r\<close> of \<open>Math.random()\<close>, a double
  with \<open>0 \<le> r < 1\<close>, \<open>Random(L)\<close> returns an integer \<open>i\<close> with \<open>0 \<le> i \<le> L - 1\<close>; for
  \<open>L = 1\<close> it returns 0 for every draw. The product \<open>r * L\<close> is the rounded product of
  doubles; lengths are below \<open>2 ^ 53\<close> (an array is shorter than \<open>2 ^ 32\<close>).
\<close>

theorem Random_in_range:
  "is_random rnd \<Longrightarrow> 1 \<le> L \<Longrightarrow> L < 2 ^ 53 \<Longrightarrow>
   0 \<le> Random rnd L \<and> Random rnd L \<le> int L - 1 \<and> (L = 1 \<longrightarrow> Random rnd L = 0)"
proof -
  assume r: "is_random rnd" and "1 \<le> L" and L: "L < 2 ^ 53"
  then have "0 < L" by simp
  from Random_range [OF r this L] show ?thesis by auto
qed

theorem Random_in_range_witness:
  "is_random (Double 9007199254740991 (- 53)) \<and> (1::nat) \<le> 28 \<and> (28::nat) < 2 ^ 53 \<and>
   0 \<le> Random (Double 9007199254740991 (- 53)) 28 \<and> Random (Double 9007199254740991 (- 53)) 28 \<le> 27 \<and>
   Random (Double 9007199254740991 (- 53)) 28 = 27 \<and>
   is_random (Double 4503599627370496 (- 53)) \<and> Random (Double 4503599627370496 (- 53)) 1 = 0"
proof -
  from Random_in_range [OF is_random_largest, of 28] Random_in_range [OF is_random_half, of 1]
  show ?thesis using is_random_largest is_random_half Random_largest_28 by simp
qed

section \<open>Properties of the answer options\<close>

lemma mset_insert_by: "mset (insert_by cmp x xs) = add_mset x (mset xs)"
  by (induction xs) simp_all

lemma mset_foldl_insert_by:
  "mset (foldl (\<lambda>acc x. insert_by cmp x acc) acc xs) = mset acc + mset xs"
  by (induction xs arbitrary: acc) (simp_all add: mset_insert_by)

lemma mset_array_sort: "mset (array_sort cmp xs) = mset xs"
  by (simp add: array_sort_def mset_foldl_insert_by)

lemma length_array_sort: "length (array_sort cmp xs) = length xs"
  using mset_array_sort [of cmp xs] by (metis size_mset)

lemma set_array_sort: "set (array_sort cmp xs) = set xs"
  using mset_array_sort [of cmp xs] by (metis set_mset_mset)

lemma sorted_insert_by:
  fixes f :: "'a \<Rightarrow> 'b::linorder"
  assumes "sorted (map f xs)"
  shows "sorted (map f (insert_by (\<lambda>a b. if f a > f b then 1 else - 1) x xs))"
  using assms
proof (induction xs)
  case Nil
  then show ?case by simp
next
  case (Cons y ys)
  let ?cmp = "\<lambda>a b. if f a > f b then (1::int) else - 1"
  show ?case
  proof (cases "f x > f y")
    case True
    have "set (insert_by ?cmp x ys) = insert x (set ys)"
      using mset_insert_by [of ?cmp x ys] by (metis set_mset_mset set_mset_add_mset_insert)
    with True Cons show ?thesis by auto
  next
    case False
    with Cons.prems show ?thesis by auto
  qed
qed

lemma sorted_foldl_insert_by:
  fixes f :: "'a \<Rightarrow> 'b::linorder"
  assumes "sorted (map f acc)"
  shows "sorted (map f (foldl (\<lambda>acc x. insert_by (\<lambda>a b. if f a > f b then 1 else - 1) x acc) acc xs))"
  using assms by (induction xs arbitrary: acc) (simp_all add: sorted_insert_by)

lemma sorted_array_sort:
  fixes f :: "'a \<Rightarrow> 'b::linorder"
  shows "sorted (map f (array_sort (\<lambda>a b. if f a > f b then 1 else - 1) xs))"
  by (simp add: array_sort_def sorted_foldl_insert_by)

lemma sorted_values_sortedListAnswersOf: "sorted (map value' (sortedListAnswersOf qd))"
  by (simp add: sortedListAnswersOf_def sorted_array_sort)

lemma length_sortedListAnswersOf: "length (sortedListAnswersOf qd) = length qd"
  by (simp add: sortedListAnswersOf_def length_array_sort)

lemma mset_sortedListAnswersOf:
  "mset (sortedListAnswersOf qd) = mset (map (\<lambda>item. \<lparr>value' = A item, label = A item\<rparr>) qd)"
  by (simp add: sortedListAnswersOf_def mset_array_sort)

lemma set_sortedListAnswersOf:
  "set (sortedListAnswersOf qd) = (\<lambda>item. \<lparr>value' = A item, label = A item\<rparr>) ` set qd"
  by (simp add: sortedListAnswersOf_def set_array_sort)

lemma length_quizData: "length quizData = 28"
  by (simp add: quizData_def)

text \<open>
  The list is the only sorted arrangement of the options: a runtime that sorts by another
  algorithm returns the same list.
\<close>

lemma option_of_value:
  "\<forall>opt\<in>set xs. label opt = value' opt \<Longrightarrow>
   map (\<lambda>v. \<lparr>value' = v, label = v\<rparr>) (map value' xs) = xs"
  by (induction xs) simp_all

lemma sorted_answers_unique:
  assumes "mset ys = mset (map (\<lambda>item. \<lparr>value' = A item, label = A item\<rparr>) qd)"
    and "sorted (map value' ys)"
  shows "ys = sortedListAnswersOf qd"
proof -
  let ?zs = "sortedListAnswersOf qd"
  have m: "mset ys = mset ?zs" using assms(1) by (simp add: mset_sortedListAnswersOf)
  then have "mset (map value' ys) = mset (map value' ?zs)" by simp
  then have "sort (map value' ?zs) = map value' ys"
    using assms(2) by (rule properties_for_sort)
  moreover have "sort (map value' ?zs) = map value' ?zs"
    using sorted_values_sortedListAnswersOf by (rule sorted_sort_id)
  ultimately have v: "map value' ys = map value' ?zs" by simp
  have z: "\<forall>opt\<in>set ?zs. label opt = value' opt"
    by (auto simp: set_sortedListAnswersOf)
  moreover have "set ys = set ?zs" using m by (rule mset_eq_setD)
  ultimately have y: "\<forall>opt\<in>set ys. label opt = value' opt" by simp
  have "ys = map (\<lambda>v. \<lparr>value' = v, label = v\<rparr>) (map value' ys)"
    using option_of_value [OF y] by simp
  also have "\<dots> = map (\<lambda>v. \<lparr>value' = v, label = v\<rparr>) (map value' ?zs)"
    by (simp only: v)
  also have "\<dots> = ?zs"
    by (rule option_of_value [OF z])
  finally show ?thesis .
qed

text \<open>
  C5. The sequence returned by \<open>sortedListAnswers\<close> is sorted ascending under the default
  string ordering: for every adjacent pair (a, b) of the returned sequence,
  \<open>a.value \<le> b.value\<close>. It holds for every corpus, the shipped one included.
\<close>

theorem sortedListAnswers_adjacent_sorted:
  "Suc i < length (sortedListAnswersOf qd) \<Longrightarrow>
   value' (sortedListAnswersOf qd ! i) \<le> value' (sortedListAnswersOf qd ! Suc i)"
proof -
  assume len: "Suc i < length (sortedListAnswersOf qd)"
  have "sorted (map value' (sortedListAnswersOf qd))"
    by (rule sorted_values_sortedListAnswersOf)
  then have "map value' (sortedListAnswersOf qd) ! i \<le> map value' (sortedListAnswersOf qd) ! Suc i"
    using len by (simp add: sorted_iff_nth_Suc del: nth_map)
  with len show ?thesis by simp
qed

theorem sortedListAnswers_adjacent_sorted_witness:
  "Suc 0 < length sortedListAnswers \<and>
   value' (sortedListAnswers ! 0) \<le> value' (sortedListAnswers ! Suc 0)"
proof -
  have len: "Suc 0 < length (sortedListAnswersOf quizData)"
    by (simp add: length_sortedListAnswersOf length_quizData)
  show ?thesis
    unfolding sortedListAnswers_def
    using len sortedListAnswers_adjacent_sorted [OF len] by simp
qed

text \<open>
  C6. \<open>sortedListAnswers\<close> produces exactly one option per quiz entry, with value equal to
  label equal to that entry's answer. Duplicates are kept: the result has the length of the
  corpus and the same multiset of answer strings, so every entry's answer is the value of
  at least one option.
\<close>

theorem sortedListAnswers_one_per_entry:
  "length (sortedListAnswersOf qd) = length qd \<and>
   mset (map value' (sortedListAnswersOf qd)) = mset (map A qd) \<and>
   (\<forall>opt \<in> set (sortedListAnswersOf qd). label opt = value' opt) \<and>
   (\<forall>e \<in> set qd. \<exists>opt \<in> set (sortedListAnswersOf qd). value' opt = A e)"
proof -
  have "mset (map value' (sortedListAnswersOf qd)) = mset (map A qd)"
  proof -
    have "mset (map value' (sortedListAnswersOf qd)) = image_mset value' (mset (sortedListAnswersOf qd))"
      by simp
    also have "\<dots> = image_mset value' (mset (map (\<lambda>item. \<lparr>value' = A item, label = A item\<rparr>) qd))"
      by (simp only: mset_sortedListAnswersOf)
    also have "\<dots> = mset (map value' (map (\<lambda>item. \<lparr>value' = A item, label = A item\<rparr>) qd))"
      by (simp only: mset_map)
    also have "\<dots> = mset (map A qd)"
      by (simp add: comp_def)
    finally show ?thesis .
  qed
  moreover have "\<forall>opt \<in> set (sortedListAnswersOf qd). label opt = value' opt"
    by (auto simp: set_sortedListAnswersOf)
  moreover have "\<forall>e \<in> set qd. \<exists>opt \<in> set (sortedListAnswersOf qd). value' opt = A e"
    by (force simp: set_sortedListAnswersOf)
  ultimately show ?thesis
    by (simp add: length_sortedListAnswersOf)
qed

theorem sortedListAnswers_one_per_entry_witness:
  "length sortedListAnswers = 28 \<and>
   count (mset (map value' sortedListAnswers)) (utf16 ''Auckland'') = 2 \<and>
   (\<exists>opt \<in> set sortedListAnswers. value' opt = utf16 ''Wellington'' \<and> label opt = value' opt)"
proof -
  have e: "\<lparr>Q = utf16 ''What is the capital of New Zealand'', A = utf16 ''Wellington''\<rparr> \<in> set quizData"
    by (simp add: quizData_def)
  have c: "count (mset (map A quizData)) (utf16 ''Auckland'') = 2"
    by (simp add: quizData_def utf16_def)
  from sortedListAnswers_one_per_entry [of quizData] e c show ?thesis
    unfolding sortedListAnswers_def
    by (simp add: length_quizData) fastforce
qed

section \<open>The event handlers\<close>

lemma appState_eq:
  "s\<lparr>answer := a, winlose := w, gameData := g\<rparr> = \<lparr>gameData = g, answer = a, winlose = w\<rparr>"
  by (cases s) simp

lemma onClickHandlerNewGame_in_range:
  assumes "0 \<le> Random rnd (length allData)" and "Random rnd (length allData) < int (length allData)"
  shows "onClickHandlerNewGame allData rnd s =
         Inr \<lparr>gameData = \<lparr>Q = Q (allData ! nat (Random rnd (length allData))),
                            A = A (allData ! nat (Random rnd (length allData)))\<rparr>,
              answer = [], winlose = []\<rparr>"
  using assms by (simp add: onClickHandlerNewGame_def Let_def array_get_def get_property_def appState_eq)

lemma onClickHandlerNewGame_out_of_range:
  assumes "\<not> (0 \<le> Random rnd (length allData) \<and> Random rnd (length allData) < int (length allData))"
  shows "onClickHandlerNewGame allData rnd s = Inl TypeError"
  using assms by (simp add: onClickHandlerNewGame_def Let_def array_get_def get_property_def)

lemma onClickHandlerNewGame_Inr:
  assumes "onClickHandlerNewGame allData rnd s = Inr s'"
  shows "\<exists>i<length allData. s' = \<lparr>gameData = \<lparr>Q = Q (allData ! i), A = A (allData ! i)\<rparr>,
                                     answer = [], winlose = []\<rparr>"
proof (cases "0 \<le> Random rnd (length allData) \<and> Random rnd (length allData) < int (length allData)")
  case True
  then have "onClickHandlerNewGame allData rnd s =
         Inr \<lparr>gameData = \<lparr>Q = Q (allData ! nat (Random rnd (length allData))),
                            A = A (allData ! nat (Random rnd (length allData)))\<rparr>,
              answer = [], winlose = []\<rparr>"
    by (simp add: onClickHandlerNewGame_in_range)
  moreover from True have "nat (Random rnd (length allData)) < length allData" by (simp add: nat_less_iff)
  ultimately show ?thesis using assms by auto
next
  case False
  then show ?thesis using assms onClickHandlerNewGame_out_of_range [OF False, of s] by simp
qed

lemma gameData_handleAnswerChange: "gameData (handleAnswerChange e s) = gameData s"
  by (simp add: handleAnswerChange_def)

lemma answer_handleAnswerChange: "answer (handleAnswerChange e s) = value' e"
  by (simp add: handleAnswerChange_def)

lemma winlose_handleAnswerChange:
  "winlose (handleAnswerChange e s) = string_plus (utf16 ''- you '') (winLoseCalc s (value' e))"
  by (simp add: handleAnswerChange_def)

lemma winlose_handleAnswerChange_defined:
  assumes "value' e \<noteq> utf16 ''undefined''"
  shows "winlose (handleAnswerChange e s) =
         (if value' e = A (gameData s) then utf16 ''- you win'' else utf16 ''- you lose'')"
  using assms by (simp add: winlose_handleAnswerChange winLoseCalc_def string_plus_def utf16_def)

lemma winLoseCalc_gameData:
  "gameData s = gameData t \<Longrightarrow> winLoseCalc s c = winLoseCalc t c"
  by (simp add: winLoseCalc_def)

lemma handleAnswerChange_overwrite:
  "handleAnswerChange b (handleAnswerChange a s) = handleAnswerChange b s"
proof -
  have "winLoseCalc (handleAnswerChange a s) (value' b) = winLoseCalc s (value' b)"
    by (rule winLoseCalc_gameData) (rule gameData_handleAnswerChange)
  then show ?thesis by (simp add: handleAnswerChange_def)
qed

lemma first_question:
  "onClickHandlerNewGame quizData (Double 0 0) s =
   Inr \<lparr>gameData = \<lparr>Q = utf16 ''What is the capital of New Zealand'', A = utf16 ''Wellington''\<rparr>,
        answer = [], winlose = []\<rparr>"
proof -
  have r: "Random (Double 0 0) (length quizData) = 0"
    by (simp add: Random_def js_times_def round_nearest_even_def excess_zero_iff js_floor_def)
  have "quizData ! 0 = \<lparr>Q = utf16 ''What is the capital of New Zealand'', A = utf16 ''Wellington''\<rparr>"
    by (simp add: quizData_def)
  then show ?thesis
    using onClickHandlerNewGame_in_range [of "Double 0 0" quizData s] r
    by (simp add: length_quizData)
qed

lemma reachable_first_question:
  "reachable quizData opts
     \<lparr>gameData = \<lparr>Q = utf16 ''What is the capital of New Zealand'', A = utf16 ''Wellington''\<rparr>,
      answer = [], winlose = []\<rparr>"
  by (rule reachable.newGame [OF reachable.start is_random_zero first_question])

text \<open>
  C2. For every prior state, whatever was selected or answered before,
  \<open>onClickHandlerNewGame\<close> over a non-empty corpus resets \<open>answer\<close> to the empty string and
  \<open>winlose\<close> to the empty string in the same update in which \<open>gameData\<close> takes the \<open>Q\<close>
  and \<open>A\<close> of the picked corpus entry: no earlier win or lose text survives.
\<close>

theorem onClickHandlerNewGame_resets:
  "is_random rnd \<Longrightarrow> allData \<noteq> [] \<Longrightarrow> length allData < 2 ^ 32 \<Longrightarrow>
   \<exists>i<length allData.
     onClickHandlerNewGame allData rnd s =
       Inr \<lparr>gameData = \<lparr>Q = Q (allData ! i), A = A (allData ! i)\<rparr>, answer = [], winlose = []\<rparr>"
proof -
  assume r: "is_random rnd" and ne: "allData \<noteq> []" and len: "length allData < 2 ^ 32"
  from ne have pos: "0 < length allData" by simp
  from len have "length allData < 2 ^ 53" by simp
  from Random_range [OF r pos this]
  have lo: "0 \<le> Random rnd (length allData)" and hi: "Random rnd (length allData) < int (length allData)"
    by simp_all
  then have "nat (Random rnd (length allData)) < length allData" by (simp add: nat_less_iff)
  with onClickHandlerNewGame_in_range [OF lo hi, of s] show ?thesis by blast
qed

theorem onClickHandlerNewGame_resets_witness:
  "is_random (Double 9007199254740991 (- 53)) \<and> quizData \<noteq> [] \<and> length quizData < 2 ^ 32 \<and>
   (\<exists>i<length quizData.
     onClickHandlerNewGame quizData (Double 9007199254740991 (- 53))
       \<lparr>gameData = \<lparr>Q = utf16 ''What is the capital of New Zealand'', A = utf16 ''Wellington''\<rparr>,
        answer = utf16 ''Auckland'', winlose = utf16 ''- you lose''\<rparr> =
       Inr \<lparr>gameData = \<lparr>Q = Q (quizData ! i), A = A (quizData ! i)\<rparr>, answer = [], winlose = []\<rparr>)"
proof -
  have ne: "quizData \<noteq> []" using length_quizData by auto
  have len: "length quizData < 2 ^ 32" by (simp add: length_quizData)
  from onClickHandlerNewGame_resets [OF is_random_largest ne len] is_random_largest ne len
  show ?thesis by simp
qed

text \<open>
  C4, as amended. Nothing guards the empty corpus: \<open>Random(0)\<close> returns the index 0 for
  every draw, \<open>allData[0]\<close> is \<open>undefined\<close>, and \<open>onClickHandlerNewGame\<close> fails at run time
  with the \<open>TypeError\<close> of reading the property \<open>Q\<close> of \<open>undefined\<close>.
\<close>

theorem empty_corpus_TypeError:
  "Random rnd (length ([] :: quizEntry list)) = 0 \<and>
   array_get ([] :: quizEntry list) (Random rnd (length ([] :: quizEntry list))) = None \<and>
   onClickHandlerNewGame [] rnd s = Inl TypeError"
  by (simp add: Random_zero array_get_def onClickHandlerNewGame_def get_property_def)

text \<open>
  C4 as stated, that the pick over an empty corpus reports an explicit error instead of
  picking an undefined entry, fails: the pick returns an index and the entry picked is
  \<open>undefined\<close>.
\<close>

theorem empty_corpus_picks_undefined:
  "Random (Double 0 0) (length ([] :: quizEntry list)) = 0 \<and>
   array_get ([] :: quizEntry list) (Random (Double 0 0) (length ([] :: quizEntry list))) = None \<and>
   onClickHandlerNewGame [] (Double 0 0) initialState = Inl TypeError"
  by (simp add: Random_zero array_get_def onClickHandlerNewGame_def get_property_def)




section \<open>Reachable states\<close>

text \<open>Invariants of the reachable states.\<close>

lemma reachable_gameData:
  assumes "reachable allData opts s"
  shows "gameData s = \<lparr>Q = utf16 ''Start'', A = utf16 ''Start''\<rparr> \<or>
         (\<exists>i<length allData. gameData s = \<lparr>Q = Q (allData ! i), A = A (allData ! i)\<rparr>)"
  using assms
proof (induction rule: reachable.induct)
  case start
  then show ?case by (simp add: initialState_def)
next
  case (newGame s rnd s')
  from onClickHandlerNewGame_Inr [OF newGame(3)] show ?case by auto
next
  case (select s e)
  then show ?case by (simp add: gameData_handleAnswerChange)
qed

lemma reachable_selection:
  assumes "reachable allData opts s"
  shows "(answer s = [] \<and> winlose s = []) \<or>
         (\<exists>e\<in>opts. answer s = value' e \<and>
            winlose s = string_plus (utf16 ''- you '') (winLoseCalc s (value' e)))"
  using assms
proof (induction rule: reachable.induct)
  case start
  then show ?case by (simp add: initialState_def)
next
  case (newGame s rnd s')
  from onClickHandlerNewGame_Inr [OF newGame(3)] show ?case by auto
next
  case (select s e)
  have "winLoseCalc (handleAnswerChange e s) (value' e) = winLoseCalc s (value' e)"
    by (rule winLoseCalc_gameData) (rule gameData_handleAnswerChange)
  with select(2) show ?case
    by (auto simp: answer_handleAnswerChange winlose_handleAnswerChange)
qed

lemma quizData_answers_nonempty: "\<forall>e\<in>set quizData. A e \<noteq> []"
  by (simp add: quizData_def utf16_def)

lemma quizData_answers_defined: "\<forall>e\<in>set quizData. A e \<noteq> utf16 ''undefined''"
  by (simp add: quizData_def utf16_def)

lemma reachable_quizData_answer:
  assumes "reachable quizData opts s"
  shows "A (gameData s) \<noteq> [] \<and> A (gameData s) \<noteq> utf16 ''undefined''"
proof -
  from reachable_gameData [OF assms] show ?thesis
  proof
    assume "gameData s = \<lparr>Q = utf16 ''Start'', A = utf16 ''Start''\<rparr>"
    then show ?thesis by (simp add: utf16_def)
  next
    assume "\<exists>i<length quizData. gameData s = \<lparr>Q = Q (quizData ! i), A = A (quizData ! i)\<rparr>"
    then obtain i where i: "i < length quizData" and g: "A (gameData s) = A (quizData ! i)" by auto
    from i have "quizData ! i \<in> set quizData" by simp
    with g quizData_answers_nonempty quizData_answers_defined show ?thesis by auto
  qed
qed

lemma message_reachable:
  assumes r: "reachable allData opts s" and u: "\<forall>e\<in>opts. value' e \<noteq> utf16 ''undefined''"
    and a: "answer s \<noteq> []"
  shows "message s = utf16 ''You selected '' @ answer s @
           (if answer s = A (gameData s) then utf16 ''- you win'' else utf16 ''- you lose'')"
proof -
  from reachable_selection [OF r] a obtain e where e: "e \<in> opts" "answer s = value' e"
    and w: "winlose s = string_plus (utf16 ''- you '') (winLoseCalc s (value' e))"
    by auto
  from u e have "value' e \<noteq> utf16 ''undefined''" by simp
  then have "winlose s = (if value' e = A (gameData s) then utf16 ''- you win'' else utf16 ''- you lose'')"
    using w by (simp add: winLoseCalc_def string_plus_def utf16_def)
  with a e show ?thesis by (simp add: message_def)
qed

lemma sortedListAnswers_defined: "\<forall>e\<in>set sortedListAnswers. value' e \<noteq> utf16 ''undefined''"
  using quizData_answers_defined by (auto simp: sortedListAnswers_def set_sortedListAnswersOf)

lemma option_Auckland: "\<lparr>value' = utf16 ''Auckland'', label = utf16 ''Auckland''\<rparr> \<in> set sortedListAnswers"
proof -
  have "\<lparr>Q = utf16 ''What is the largest city in New Zealand'', A = utf16 ''Auckland''\<rparr> \<in> set quizData"
    by (simp add: quizData_def)
  then show ?thesis unfolding sortedListAnswers_def set_sortedListAnswersOf by force
qed

lemma select_Auckland:
  "handleAnswerChange \<lparr>value' = utf16 ''Auckland'', label = utf16 ''Auckland''\<rparr>
     \<lparr>gameData = \<lparr>Q = utf16 ''What is the capital of New Zealand'', A = utf16 ''Wellington''\<rparr>,
      answer = [], winlose = []\<rparr> =
   \<lparr>gameData = \<lparr>Q = utf16 ''What is the capital of New Zealand'', A = utf16 ''Wellington''\<rparr>,
    answer = utf16 ''Auckland'', winlose = utf16 ''- you lose''\<rparr>"
  by (simp add: handleAnswerChange_def winLoseCalc_def string_plus_def utf16_def)

text \<open>
  C7. In every state the component reaches in which \<open>answer\<close> is not empty, the message
  displayed is \<open>"You selected "\<close>, then \<open>answer\<close>, then \<open>"- you win"\<close> when the selection
  equals the current correct answer and \<open>"- you lose"\<close> otherwise, with no space before
  the hyphen. The selections are those of the dropdown of \<open>App\<close>, whose options are
  \<open>sortedListAnswers\<close>; none of them is the string \<open>undefined\<close>.
\<close>

theorem message_after_selection:
  "reachable quizData (set sortedListAnswers) s \<Longrightarrow> answer s \<noteq> [] \<Longrightarrow>
   message s = utf16 ''You selected '' @ answer s @
     (if answer s = A (gameData s) then utf16 ''- you win'' else utf16 ''- you lose'')"
  by (rule message_reachable [OF _ sortedListAnswers_defined])

theorem message_after_selection_witness:
  "reachable quizData (set sortedListAnswers)
     \<lparr>gameData = \<lparr>Q = utf16 ''What is the capital of New Zealand'', A = utf16 ''Wellington''\<rparr>,
      answer = utf16 ''Auckland'', winlose = utf16 ''- you lose''\<rparr> \<and>
   utf16 ''Auckland'' \<noteq> [] \<and>
   message \<lparr>gameData = \<lparr>Q = utf16 ''What is the capital of New Zealand'', A = utf16 ''Wellington''\<rparr>,
      answer = utf16 ''Auckland'', winlose = utf16 ''- you lose''\<rparr> =
     utf16 ''You selected Auckland- you lose''"
proof -
  have r: "reachable quizData (set sortedListAnswers)
     \<lparr>gameData = \<lparr>Q = utf16 ''What is the capital of New Zealand'', A = utf16 ''Wellington''\<rparr>,
      answer = utf16 ''Auckland'', winlose = utf16 ''- you lose''\<rparr>"
    using reachable.select [OF reachable_first_question option_Auckland]
    by (simp only: select_Auckland)
  have n: "answer \<lparr>gameData = \<lparr>Q = utf16 ''What is the capital of New Zealand'', A = utf16 ''Wellington''\<rparr>,
      answer = utf16 ''Auckland'', winlose = utf16 ''- you lose''\<rparr> \<noteq> []"
    by (simp add: utf16_def)
  from message_after_selection [OF r n] r show ?thesis
    by (simp add: utf16_def)
qed

text \<open>
  C8. An empty choice never wins silently: \<open>winLoseCalc\<close> answers \<open>win\<close> to the empty
  string only if the current correct answer is empty too, which no reachable state allows,
  since the answers of the corpus and the sentinel \<open>Start\<close> are not empty; in every
  reachable state the empty choice gives \<open>lose\<close>. The states are reached with any choices.
\<close>

theorem empty_choice_never_wins:
  "(winLoseCalc s [] = Some (utf16 ''win'') \<longleftrightarrow> A (gameData s) = []) \<and>
   (reachable quizData opts s \<longrightarrow>
      A (gameData s) \<noteq> [] \<and> winLoseCalc s [] = Some (utf16 ''lose'') \<and>
      winlose (handleAnswerChange \<lparr>value' = [], label = l\<rparr> s) = utf16 ''- you lose'')"
proof -
  have 1: "winLoseCalc s [] = Some (utf16 ''win'') \<longleftrightarrow> A (gameData s) = []"
    by (auto simp: winLoseCalc_def utf16_def)
  have 2: "A (gameData s) \<noteq> [] \<and> winLoseCalc s [] = Some (utf16 ''lose'') \<and>
      winlose (handleAnswerChange \<lparr>value' = [], label = l\<rparr> s) = utf16 ''- you lose''"
    if "reachable quizData opts s"
  proof -
    from reachable_quizData_answer [OF that] have ne: "A (gameData s) \<noteq> []" by simp
    then have "winLoseCalc s [] = Some (utf16 ''lose'')"
      by (auto simp: winLoseCalc_def utf16_def)
    with ne show ?thesis
      by (simp add: winlose_handleAnswerChange string_plus_def utf16_def)
  qed
  from 1 2 show ?thesis by blast
qed

theorem empty_choice_never_wins_witness:
  "reachable quizData (set sortedListAnswers)
     \<lparr>gameData = \<lparr>Q = utf16 ''What is the capital of New Zealand'', A = utf16 ''Wellington''\<rparr>,
      answer = [], winlose = []\<rparr> \<and>
   winlose (handleAnswerChange \<lparr>value' = [], label = []\<rparr>
     \<lparr>gameData = \<lparr>Q = utf16 ''What is the capital of New Zealand'', A = utf16 ''Wellington''\<rparr>,
      answer = [], winlose = []\<rparr>) = utf16 ''- you lose'' \<and>
   winLoseCalc \<lparr>gameData = \<lparr>Q = [], A = []\<rparr>, answer = [], winlose = []\<rparr> [] = Some (utf16 ''win'')"
  using empty_choice_never_wins [of "\<lparr>gameData = \<lparr>Q = utf16 ''What is the capital of New Zealand'', A = utf16 ''Wellington''\<rparr>,
      answer = [], winlose = []\<rparr>" "set sortedListAnswers" "[]"]
    empty_choice_never_wins [of "\<lparr>gameData = \<lparr>Q = [], A = []\<rparr>, answer = [], winlose = []\<rparr>" "{}" "[]"]
    reachable_first_question [of "set sortedListAnswers"]
  by simp

text \<open>
  C9. A selection overwrites the one before: \<open>handleAnswerChange\<close> with \<open>a\<close> and then
  with \<open>b\<close> gives the state that \<open>handleAnswerChange\<close> with \<open>b\<close> alone gives, in every
  state and for every pair of choices. In particular, in a reachable state, when a selection
  has given \<open>lose\<close>, selecting the correct answer gives \<open>win\<close> with no new question in
  between.
\<close>

theorem reselect_overwrites:
  "handleAnswerChange b (handleAnswerChange a s) = handleAnswerChange b s \<and>
   (reachable quizData opts s \<and> winlose (handleAnswerChange a s) = utf16 ''- you lose'' \<and>
    value' b = A (gameData s) \<longrightarrow>
      winlose (handleAnswerChange b (handleAnswerChange a s)) = utf16 ''- you win'')"
proof -
  have "winlose (handleAnswerChange b s) = utf16 ''- you win''"
    if r: "reachable quizData opts s" and b: "value' b = A (gameData s)"
  proof -
    from reachable_quizData_answer [OF r] b have "value' b \<noteq> utf16 ''undefined''" by simp
    from winlose_handleAnswerChange_defined [OF this, of s] b show ?thesis by simp
  qed
  then show ?thesis by (simp add: handleAnswerChange_overwrite)
qed

theorem reselect_overwrites_witness:
  "reachable quizData (set sortedListAnswers)
     \<lparr>gameData = \<lparr>Q = utf16 ''What is the capital of New Zealand'', A = utf16 ''Wellington''\<rparr>,
      answer = [], winlose = []\<rparr> \<and>
   winlose (handleAnswerChange \<lparr>value' = utf16 ''Auckland'', label = utf16 ''Auckland''\<rparr>
     \<lparr>gameData = \<lparr>Q = utf16 ''What is the capital of New Zealand'', A = utf16 ''Wellington''\<rparr>,
      answer = [], winlose = []\<rparr>) = utf16 ''- you lose'' \<and>
   winlose (handleAnswerChange \<lparr>value' = utf16 ''Wellington'', label = utf16 ''Wellington''\<rparr>
     (handleAnswerChange \<lparr>value' = utf16 ''Auckland'', label = utf16 ''Auckland''\<rparr>
       \<lparr>gameData = \<lparr>Q = utf16 ''What is the capital of New Zealand'', A = utf16 ''Wellington''\<rparr>,
        answer = [], winlose = []\<rparr>)) = utf16 ''- you win''"
proof -
  let ?S = "\<lparr>gameData = \<lparr>Q = utf16 ''What is the capital of New Zealand'', A = utf16 ''Wellington''\<rparr>,
              answer = [], winlose = []\<rparr>"
  let ?a = "\<lparr>value' = utf16 ''Auckland'', label = utf16 ''Auckland''\<rparr>"
  let ?b = "\<lparr>value' = utf16 ''Wellington'', label = utf16 ''Wellington''\<rparr>"
  have r: "reachable quizData (set sortedListAnswers) ?S"
    by (rule reachable_first_question)
  have l: "winlose (handleAnswerChange ?a ?S) = utf16 ''- you lose''"
    by (simp add: select_Auckland)
  have b: "value' ?b = A (gameData ?S)"
    by simp
  from reselect_overwrites [of ?b ?a ?S "set sortedListAnswers"] r l b
  have w: "winlose (handleAnswerChange ?b (handleAnswerChange ?a ?S)) = utf16 ''- you win''"
    by blast
  from r l w show ?thesis by (intro conjI)
qed

text \<open>
  C10. In every reachable state, for every corpus and whatever the choices, \<open>gameData\<close> is
  the sentinel pair \<open>(Start, Start)\<close> or the \<open>Q\<close> and \<open>A\<close> of one entry of the corpus, taken
  at the same index; \<open>handleAnswerChange\<close> never changes it.
\<close>

theorem gameData_is_one_entry:
  "reachable allData opts s \<Longrightarrow>
   (gameData s = \<lparr>Q = utf16 ''Start'', A = utf16 ''Start''\<rparr> \<or>
    (\<exists>i<length allData. Q (gameData s) = Q (allData ! i) \<and> A (gameData s) = A (allData ! i))) \<and>
   gameData (handleAnswerChange e s) = gameData s"
proof -
  assume "reachable allData opts s"
  from reachable_gameData [OF this] show ?thesis
    by (auto simp: gameData_handleAnswerChange)
qed

theorem gameData_is_one_entry_witness:
  "reachable quizData (set sortedListAnswers)
     \<lparr>gameData = \<lparr>Q = utf16 ''What is the capital of New Zealand'', A = utf16 ''Wellington''\<rparr>,
      answer = utf16 ''Auckland'', winlose = utf16 ''- you lose''\<rparr> \<and>
   (\<exists>i<length quizData. utf16 ''What is the capital of New Zealand'' = Q (quizData ! i) \<and>
      utf16 ''Wellington'' = A (quizData ! i))"
proof -
  have r: "reachable quizData (set sortedListAnswers)
     \<lparr>gameData = \<lparr>Q = utf16 ''What is the capital of New Zealand'', A = utf16 ''Wellington''\<rparr>,
      answer = utf16 ''Auckland'', winlose = utf16 ''- you lose''\<rparr>"
    using reachable.select [OF reachable_first_question option_Auckland]
    by (simp only: select_Auckland)
  from gameData_is_one_entry [OF r] r show ?thesis
    by (simp add: utf16_def)
qed

end
